theory Spec2Isabelle
  imports Main
begin

section \<open>Results, messages and queues\<close>

text \<open>
  \<^verbatim>\<open>Result<V>\<close> of result.h is either a value or an error text. The header
  thread.h only builds results (\<^verbatim>\<open>ok_result\<close>, \<^verbatim>\<open>error_result\<close>), tests them
  (\<^verbatim>\<open>is_error\<close>, \<^verbatim>\<open>get_value\<close>) and re-types them (\<^verbatim>\<open>propagate\<close>).
\<close>

datatype 'a Result = Ok 'a | Error string

definition ok_result :: "'a \<Rightarrow> 'a Result" where
  "ok_result v = Ok v"

text \<open>
  \<^verbatim>\<open>error_result(text)\<close> is called in thread.h with the text as its only
  argument and its value is returned at once: it builds a result and has no access to the
  Thread it is called from.
\<close>

definition error_result :: "string \<Rightarrow> 'a Result" where
  "error_result e = Error e"

text \<open>\<^verbatim>\<open>r.propagate(v)\<close>: the error of \<open>r\<close> if it has one, otherwise the value \<open>v\<close>.\<close>

fun propagate :: "'a Result \<Rightarrow> 'b \<Rightarrow> 'b Result" where
  "propagate (Ok _) v = Ok v"
| "propagate (Error e) v = Error e"

text \<open>\<^verbatim>\<open>r.propagate_as_void()\<close>: the same outcome with the value forgotten.\<close>

fun propagate_as_void :: "'a Result \<Rightarrow> unit Result" where
  "propagate_as_void (Ok _) = Ok ()"
| "propagate_as_void (Error e) = Error e"

text \<open>
  Modelled from the spec: message.h is not part of the sources. A message is a Command
  carrying a payload with a command tag, or an Ack carrying the message it answers, a
  success flag and an optional diagnostic text (spec section 3).
\<close>

datatype CommandAction =
    COMMAND_ADD | COMMAND_REMOVE | COMMAND_LOG_FILE | COMMAND_LOG_STDERR
  | COMMAND_LOG_STDOUT | COMMAND_LOG_DISABLE | COMMAND_OTHER nat

record CommandPayload =
  command_id :: nat
  action :: CommandAction
  arg :: string

datatype Message =
    Command CommandPayload
  | Ack Message bool "string option"

fun as_command :: "Message \<Rightarrow> CommandPayload option" where
  "as_command (Command c) = Some c"
| "as_command (Ack _ _ _) = None"

text \<open>\<^verbatim>\<open>Message::ack(original, success, text)\<close> and \<^verbatim>\<open>Message::ack(original, result)\<close>.\<close>

definition ack :: "Message \<Rightarrow> bool \<Rightarrow> string \<Rightarrow> Message" where
  "ack original success text = Ack original success (Some text)"

fun ack_result :: "Message \<Rightarrow> unit Result \<Rightarrow> Message" where
  "ack_result original (Ok _) = Ack original True None"
| "ack_result original (Error e) = Ack original False (Some e)"

text \<open>
  Modelled from the spec: queue.h is not part of the sources. A Queue is a FIFO channel
  that exposes its last internal error (spec sections 2 and 6). A queue whose internal
  error is set refuses an enqueue with that error and keeps its contents; thread.h tests
  every enqueue for this. \<open>dequeue_all\<close> takes and clears the whole contents and gives an
  absent batch when nothing was waiting (spec section 4.4).
\<close>

record Queue =
  items :: "Message list"
  q_error :: "string option"

definition enqueue :: "Queue \<Rightarrow> Message \<Rightarrow> unit Result \<times> Queue" where
  "enqueue q m =
     (case q_error q of
        Some e \<Rightarrow> (Error e, q)
      | None \<Rightarrow> (Ok (), q\<lparr>items := items q @ [m]\<rparr>))"

definition enqueue_all :: "Queue \<Rightarrow> Message list \<Rightarrow> unit Result \<times> Queue" where
  "enqueue_all q ms =
     (case q_error q of
        Some e \<Rightarrow> (Error e, q)
      | None \<Rightarrow> (Ok (), q\<lparr>items := items q @ ms\<rparr>))"

definition dequeue_all :: "Queue \<Rightarrow> Message list option Result \<times> Queue" where
  "dequeue_all q =
     (if items q = [] then (Ok None, q)
      else (Ok (Some (items q)), q\<lparr>items := []\<rparr>))"

section \<open>The Thread\<close>

datatype State = STOPPED | STARTING | RUNNING | STOPPING

text \<open>
  The calls a Thread makes on its collaborators, in the order made. The log is a ghost
  field: the code keeps no such list, the model does, so that "joins first", "one wake
  trigger" and "no side effect" can be stated. \<open>StateStore s\<close> is \<^verbatim>\<open>state.store(s)\<close>.
\<close>

datatype Effect =
    StateStore State
  | UvThreadJoin
  | UvThreadCreate
  | UvAsyncSend
  | WakeCall
  | InEnqueue Message
  | InEnqueueAll "Message list"
  | OutEnqueueAll "Message list"
  | OutDequeueAll

text \<open>
  The fields of class Thread. \<open>health\<close> is the error stored by the \<^verbatim>\<open>SyncErrable\<close>
  superclass (errable.h is not part of the sources; see \<open>is_healthy\<close>). The starter's
  type is left open: thread_starter.h is not part of the sources, and thread.h only hands
  the starter to \<^verbatim>\<open>handle_offline_command\<close>.
\<close>

record 's Thread =
  health :: "string option"
  state :: State
  starter :: 's
  in_queue :: Queue
  out_queue :: Queue
  dead_letter_office :: "Message list option"
  trace :: "Effect list"

text \<open>
  Modelled from the spec: \<^verbatim>\<open>is_healthy()\<close> and \<^verbatim>\<open>health_err_result()\<close> of
  errable.h. An instance is healthy until a health error is stored; the health error
  result carries the stored error (spec sections 3 and 7).
\<close>

definition is_healthy :: "'s Thread \<Rightarrow> bool" where
  "is_healthy t = (health t = None)"

definition health_err_result :: "'s Thread \<Rightarrow> 'a Result" where
  "health_err_result t = Error (case health t of Some e \<Rightarrow> e | None \<Rightarrow> [])"

definition record_effect :: "Effect \<Rightarrow> 's Thread \<Rightarrow> 's Thread" where
  "record_effect e t = t\<lparr>trace := trace t @ [e]\<rparr>"

text \<open>The four transitions: each is an unconditional atomic store.\<close>

definition mark_stopped :: "'s Thread \<Rightarrow> 's Thread" where
  "mark_stopped t = record_effect (StateStore STOPPED) (t\<lparr>state := STOPPED\<rparr>)"

definition mark_starting :: "'s Thread \<Rightarrow> 's Thread" where
  "mark_starting t = record_effect (StateStore STARTING) (t\<lparr>state := STARTING\<rparr>)"

definition mark_running :: "'s Thread \<Rightarrow> 's Thread" where
  "mark_running t = record_effect (StateStore RUNNING) (t\<lparr>state := RUNNING\<rparr>)"

definition mark_stopping :: "'s Thread \<Rightarrow> 's Thread" where
  "mark_stopping t = record_effect (StateStore STOPPING) (t\<lparr>state := STOPPING\<rparr>)"

definition is_starting :: "'s Thread \<Rightarrow> bool" where
  "is_starting t = (state t = STARTING)"

definition is_running :: "'s Thread \<Rightarrow> bool" where
  "is_running t = (state t = RUNNING)"

definition is_stopped :: "'s Thread \<Rightarrow> bool" where
  "is_stopped t = (state t = STOPPED)"

definition is_stopping :: "'s Thread \<Rightarrow> bool" where
  "is_stopping t = (state t = STOPPING)"

text \<open>
  \<^verbatim>\<open>enum OfflineCommandOutcome { OFFLINE_ACK, TRIGGER_RUN }\<close>. The code compares a
  handler's value with both enumerators and has a third branch for any other value, so
  the outcome is modelled as the integer the enum is.
\<close>

type_synonym OfflineCommandOutcome = int

definition OFFLINE_ACK :: OfflineCommandOutcome where
  "OFFLINE_ACK = 0"

definition TRIGGER_RUN :: OfflineCommandOutcome where
  "TRIGGER_RUN = 1"

text \<open>
  What a call depends on outside thread.h: the virtual hooks
  \<^verbatim>\<open>handle_offline_command\<close> and \<^verbatim>\<open>wake\<close>, the return codes of libuv, and the
  \<^verbatim>\<open>operator<<\<close> renderings used in ack texts. The offline handler is given the
  payload and the starter, which it may rewrite (spec section 4.4); it is given nothing
  else of the Thread. \<open>wake\<close> is the result of the hint; the default in thread.h is
  \<^verbatim>\<open>ok_result()\<close>.
\<close>

record 's Hooks =
  handle_offline_command :: "CommandPayload \<Rightarrow> 's \<Rightarrow> OfflineCommandOutcome Result \<times> 's"
  wake :: "unit Result"
  uv_thread_create :: int
  uv_async_send :: int
  uv_strerror :: "int \<Rightarrow> string"
  show_message :: "Message \<Rightarrow> string"
  show_outcome :: "OfflineCommandOutcome Result \<Rightarrow> string"

text \<open>
  Modelled from the spec: \<^verbatim>\<open>uv_thread_join\<close> on the worker. The call returns when the
  worker has exited, and the worker's last act is to mark the thread STOPPED (the comment
  on \<^verbatim>\<open>Thread::start\<close>; spec section 4.3). The dead letters, if any, were captured by
  the worker before that.
\<close>

definition uv_thread_join :: "'s Thread \<Rightarrow> 's Thread" where
  "uv_thread_join t = mark_stopped (record_effect UvThreadJoin t)"

text \<open>
  Modelled from the spec: \<^verbatim>\<open>Thread::run\<close> is declared in thread.h and defined
  elsewhere. It fails at once when unhealthy; otherwise it marks STARTING and spawns the
  worker, and a failed spawn is stored as a health error and returned (spec section 4.1,
  and the comment on the declaration).
\<close>

definition run :: "'s Hooks \<Rightarrow> 's Thread \<Rightarrow> unit Result \<times> 's Thread" where
  "run h t =
     (if \<not> is_healthy t then (health_err_result t, t)
      else
        let t1 = record_effect UvThreadCreate (mark_starting t) in
        if uv_thread_create h \<noteq> 0
        then (let t2 = t1\<lparr>health := Some (uv_strerror h (uv_thread_create h))\<rparr>
              in (health_err_result t2, t2))
        else (ok_result (), t1))"

subsection \<open>send_all\<close>

text \<open>
  The loop of the STOPPED branch (thread.h, lines 227 to 249), over the messages left,
  with the locals \<open>should_run\<close> and \<open>acks\<close>. An enqueue on \<open>in\<close> that fails leaves the
  function with that error; the acks collected so far are lost with the local vector.
\<close>

fun offline_loop ::
  "'s Hooks \<Rightarrow> Message list \<Rightarrow> 's Thread \<Rightarrow> bool \<Rightarrow> Message list
     \<Rightarrow> (bool \<times> Message list) Result \<times> 's Thread" where
  "offline_loop h [] t should_run acks = (Ok (should_run, acks), t)"
| "offline_loop h (m # ms) t should_run acks =
     (case as_command m of
        None \<Rightarrow>
          offline_loop h ms t should_run
            (acks @ [ack m False (''Non-command message '' @ show_message h m @ '' sent'')])
      | Some command \<Rightarrow>
          (case handle_offline_command h command (starter t) of
             (r0, st) \<Rightarrow>
               let t0 = t\<lparr>starter := st\<rparr> in
               (case r0 of
                  Error e \<Rightarrow>
                    offline_loop h ms t0 should_run (acks @ [ack_result m (propagate_as_void r0)])
                | Ok v \<Rightarrow>
                    if v = OFFLINE_ACK then
                      offline_loop h ms t0 should_run (acks @ [ack_result m (propagate_as_void r0)])
                    else if v = TRIGGER_RUN then
                      (case enqueue (in_queue t0) m of
                         (Error e, q) \<Rightarrow>
                           (Error e, record_effect (InEnqueue m) (t0\<lparr>in_queue := q\<rparr>))
                       | (Ok _, q) \<Rightarrow>
                           offline_loop h ms
                             (record_effect (InEnqueue m) (t0\<lparr>in_queue := q\<rparr>)) True acks)
                    else
                      offline_loop h ms t0 should_run
                        (acks @ [ack m False
                           (''Message '' @ show_message h m
                              @ '' returned invalid offline outcome '' @ show_outcome h r0)]))))"

text \<open>The STOPPED branch (lines 223 to 261).\<close>

definition send_all_stopped :: "'s Hooks \<Rightarrow> 's Thread \<Rightarrow> Message list \<Rightarrow> bool Result \<times> 's Thread" where
  "send_all_stopped h t msgs =
     (case offline_loop h msgs t False [] of
        (Error e, t1) \<Rightarrow> (Error e, t1)
      | (Ok (should_run, acks), t1) \<Rightarrow>
          (case (if acks \<noteq> []
                 then (case enqueue_all (out_queue t1) acks of
                         (r2, q) \<Rightarrow> (r2, record_effect (OutEnqueueAll acks) (t1\<lparr>out_queue := q\<rparr>)))
                 else (Ok (), t1)) of
             (Error e, t2) \<Rightarrow> (Error e, t2)
           | (Ok _, t2) \<Rightarrow>
               if should_run
               then (case run h t2 of (r, t3) \<Rightarrow> (propagate r (acks \<noteq> []), t3))
               else (ok_result (acks \<noteq> []), t2)))"

text \<open>The tail of the function (lines 263 to 270), reached when the thread is not STOPPED.\<close>

definition send_all_online :: "'s Hooks \<Rightarrow> 's Thread \<Rightarrow> Message list \<Rightarrow> bool Result \<times> 's Thread" where
  "send_all_online h t msgs =
     (case enqueue_all (in_queue t) msgs of
        (r3, q) \<Rightarrow>
          let t1 = record_effect (InEnqueueAll msgs) (t\<lparr>in_queue := q\<rparr>) in
          (case r3 of
             Error e \<Rightarrow> (Error e, t1)
           | Ok _ \<Rightarrow>
               if is_running t1
               then (propagate (wake h) False, record_effect WakeCall t1)
               else (ok_result False, t1)))"

text \<open>Lines 223 to 270: what the function does once any join is behind it.\<close>

definition send_all_admit :: "'s Hooks \<Rightarrow> 's Thread \<Rightarrow> Message list \<Rightarrow> bool Result \<times> 's Thread" where
  "send_all_admit h t msgs =
     (if is_stopped t then send_all_stopped h t msgs else send_all_online h t msgs)"

text \<open>
  \<^verbatim>\<open>Thread::send_all\<close> (lines 203 to 271). The call on the dead letters is the
  function's own recursive call; when there are none the function falls through to the
  test for STOPPED.
\<close>

function send_all :: "'s Hooks \<Rightarrow> 's Thread \<Rightarrow> Message list \<Rightarrow> bool Result \<times> 's Thread" where
  "send_all h t msgs =
     (if \<not> is_healthy t then (health_err_result t, t)
      else if is_stopping t then
        (let t1 = uv_thread_join t in
         case dead_letter_office t1 of
           Some dead_letters \<Rightarrow>
             send_all h (t1\<lparr>dead_letter_office := None\<rparr>) (dead_letters @ msgs)
         | None \<Rightarrow> send_all_admit h t1 msgs)
      else send_all_admit h t msgs)"
  by pat_completeness auto
termination
  by (relation "measure (\<lambda>(h, t, msgs). if state t = STOPPING then 1 else 0)")
     (auto simp: is_stopping_def uv_thread_join_def mark_stopped_def record_effect_def)

subsection \<open>emit_all\<close>

text \<open>\<^verbatim>\<open>Thread::emit_all\<close> (lines 273 to 287).\<close>

definition emit_all :: "'s Hooks \<Rightarrow> 's Thread \<Rightarrow> Message list \<Rightarrow> unit Result \<times> 's Thread" where
  "emit_all h t msgs =
     (if \<not> is_healthy t then (health_err_result t, t)
      else
        (case enqueue_all (out_queue t) msgs of
           (qr, q) \<Rightarrow>
             let t1 = record_effect (OutEnqueueAll msgs) (t\<lparr>out_queue := q\<rparr>) in
             (case qr of
                Error e \<Rightarrow> (Error e, t1)
              | Ok _ \<Rightarrow>
                  let t2 = record_effect UvAsyncSend t1 in
                  if uv_async_send h \<noteq> 0
                  then (error_result (uv_strerror h (uv_async_send h)), t2)
                  else (ok_result (), t2))))"

section \<open>Operations defined outside thread.h\<close>

text \<open>
  Modelled from the spec: \<^verbatim>\<open>Thread::send\<close> is declared in thread.h and defined
  elsewhere. Spec section 4.4 gives \<open>send\<close> the steps of \<open>send_all\<close>, for the one
  message.
\<close>

definition send :: "'s Hooks \<Rightarrow> 's Thread \<Rightarrow> Message \<Rightarrow> bool Result \<times> 's Thread" where
  "send h t m = send_all h t [m]"

text \<open>
  Modelled from the spec: \<^verbatim>\<open>Thread::emit\<close> is declared in thread.h and defined
  elsewhere. Spec section 4.4 gives \<open>emit\<close> the steps of \<open>emit_all\<close>, for the one
  message.
\<close>

definition emit :: "'s Hooks \<Rightarrow> 's Thread \<Rightarrow> Message \<Rightarrow> unit Result \<times> 's Thread" where
  "emit h t m = emit_all h t [m]"

text \<open>
  Modelled from the spec: \<^verbatim>\<open>Thread::receive_all\<close> is declared in thread.h and
  defined elsewhere. It fails at once when unhealthy (spec section 7); otherwise it takes
  and clears the whole of \<open>out\<close>, and the result is absent when nothing was waiting
  (spec section 4.4, and the comment on the declaration).
\<close>

definition receive_all :: "'s Thread \<Rightarrow> Message list option Result \<times> 's Thread" where
  "receive_all t =
     (if \<not> is_healthy t then (health_err_result t, t)
      else
        (case dequeue_all (out_queue t) of
           (r, q) \<Rightarrow> (r, record_effect OutDequeueAll (t\<lparr>out_queue := q\<rparr>))))"

text \<open>
  Modelled from the spec: \<^verbatim>\<open>Thread::drain\<close> is declared in thread.h and defined
  elsewhere. It fails at once when unhealthy (spec section 7); on STOPPING it joins and
  replays the dead letters as \<open>send_all\<close> does, with no new message (spec section 4.3);
  otherwise there is nothing to replay.
\<close>

definition drain :: "'s Hooks \<Rightarrow> 's Thread \<Rightarrow> bool Result \<times> 's Thread" where
  "drain h t =
     (if \<not> is_healthy t then (health_err_result t, t)
      else if is_stopping t then
        (let t1 = uv_thread_join t in
         case dead_letter_office t1 of
           Some dead_letters \<Rightarrow> send_all h (t1\<lparr>dead_letter_office := None\<rparr>) dead_letters
         | None \<Rightarrow> (ok_result False, t1))
      else (ok_result False, t))"

text \<open>
  Modelled from the spec: the constructor is declared in thread.h ("Construct a stopped
  Thread") and defined elsewhere. A new Thread is healthy and STOPPED, with empty queues
  and no dead letters.
\<close>

definition new_thread :: "'s \<Rightarrow> 's Thread" where
  "new_thread st =
     \<lparr>health = None, state = STOPPED, starter = st,
      in_queue = \<lparr>items = [], q_error = None\<rparr>,
      out_queue = \<lparr>items = [], q_error = None\<rparr>,
      dead_letter_office = None, trace = []\<rparr>"

section \<open>The worker's side of the lifecycle\<close>

text \<open>
  Modelled from the spec: \<^verbatim>\<open>Thread::start\<close> and \<^verbatim>\<open>Thread::handle_commands\<close> are
  declared in thread.h and defined elsewhere. On startup the worker marks RUNNING (spec
  section 4.1). While RUNNING it takes the whole of \<open>in\<close> as a batch (section 4.2). When
  a batch ends with the stop flag set it marks STOPPING and moves what is then on \<open>in\<close>
  to the dead letter office (section 4.3). Its last act, once the body has returned, is
  to mark STOPPED.
\<close>

definition worker_startup :: "'s Thread \<Rightarrow> 's Thread" where
  "worker_startup t = mark_running t"


definition worker_begin_stop :: "'s Thread \<Rightarrow> 's Thread" where
  "worker_begin_stop t =
     (let t1 = mark_stopping t in
      case dequeue_all (in_queue t1) of
        (Ok batch, q) \<Rightarrow> t1\<lparr>in_queue := q, dead_letter_office := batch\<rparr>
      | (Error e, q) \<Rightarrow> t1\<lparr>in_queue := q\<rparr>)"




text \<open>The states stored so far, oldest first, read off the log.\<close>

fun stores :: "Effect list \<Rightarrow> State list" where
  "stores [] = []"
| "stores (StateStore s # es) = s # stores es"
| "stores (_ # es) = stores es"












section \<open>What the STOPPED branch decides for each message\<close>

text \<open>
  The classification of spec section 4.4, step 3, one message at a time: a message is
  answered at once with an ack, or it starts the thread. The starter is handed on from
  one message to the next, as the handler may have rewritten it.
\<close>

datatype Offline = Reply Message | Start

definition offline_verdict :: "'s Hooks \<Rightarrow> 's \<Rightarrow> Message \<Rightarrow> Offline \<times> 's" where
  "offline_verdict h st m =
     (case as_command m of
        None \<Rightarrow> (Reply (ack m False (''Non-command message '' @ show_message h m @ '' sent'')), st)
      | Some command \<Rightarrow>
          (case handle_offline_command h command st of
             (Error e, st1) \<Rightarrow> (Reply (Ack m False (Some e)), st1)
           | (Ok v, st1) \<Rightarrow>
               if v = OFFLINE_ACK then (Reply (Ack m True None), st1)
               else if v = TRIGGER_RUN then (Start, st1)
               else (Reply (ack m False
                       (''Message '' @ show_message h m
                          @ '' returned invalid offline outcome '' @ show_outcome h (Ok v))), st1)))"

fun offline_acks :: "'s Hooks \<Rightarrow> 's \<Rightarrow> Message list \<Rightarrow> Message list" where
  "offline_acks h st [] = []"
| "offline_acks h st (m # ms) =
     (case offline_verdict h st m of
        (Reply a, st1) \<Rightarrow> a # offline_acks h st1 ms
      | (Start, st1) \<Rightarrow> offline_acks h st1 ms)"

fun offline_starts :: "'s Hooks \<Rightarrow> 's \<Rightarrow> Message list \<Rightarrow> Message list" where
  "offline_starts h st [] = []"
| "offline_starts h st (m # ms) =
     (case offline_verdict h st m of
        (Reply a, st1) \<Rightarrow> offline_starts h st1 ms
      | (Start, st1) \<Rightarrow> m # offline_starts h st1 ms)"

fun offline_starter :: "'s Hooks \<Rightarrow> 's \<Rightarrow> Message list \<Rightarrow> 's" where
  "offline_starter h st [] = st"
| "offline_starter h st (m # ms) = offline_starter h (snd (offline_verdict h st m)) ms"

section \<open>A concrete subclass and concrete threads\<close>

text \<open>
  A small worker kind, used to run the definitions: its starter is the log file's path;
  offline, an Add starts the thread, a log-to-file command is recorded and acknowledged,
  a Remove fails, a command with an unknown tag \<open>n\<close> answers the integer \<open>n + 2\<close>, and
  anything else is acknowledged.
\<close>

definition sample_offline :: "CommandPayload \<Rightarrow> string \<Rightarrow> OfflineCommandOutcome Result \<times> string" where
  "sample_offline c st =
     (case action c of
        COMMAND_ADD \<Rightarrow> (Ok TRIGGER_RUN, st)
      | COMMAND_LOG_FILE \<Rightarrow> (Ok OFFLINE_ACK, arg c)
      | COMMAND_REMOVE \<Rightarrow> (Error ''no such root'', st)
      | COMMAND_OTHER n \<Rightarrow> (Ok (int n + 2), st)
      | _ \<Rightarrow> (Ok OFFLINE_ACK, st))"

fun sample_show_message :: "Message \<Rightarrow> string" where
  "sample_show_message (Command c) = ''[command]''"
| "sample_show_message (Ack _ _ _) = ''[ack]''"

fun sample_show_outcome :: "OfflineCommandOutcome Result \<Rightarrow> string" where
  "sample_show_outcome (Ok v) = (if v = 2 then ''2'' else ''?'')"
| "sample_show_outcome (Error e) = e"

fun sample_strerror :: "int \<Rightarrow> string" where
  "sample_strerror n = (if n = 0 then ''ok'' else ''uv failure'')"

definition sample_hooks :: "string Hooks" where
  "sample_hooks =
     \<lparr>handle_offline_command = sample_offline, wake = Ok (),
      uv_thread_create = 0, uv_async_send = 0, uv_strerror = sample_strerror,
      show_message = sample_show_message, show_outcome = sample_show_outcome\<rparr>"

definition failing_spawn_hooks :: "string Hooks" where
  "failing_spawn_hooks = sample_hooks\<lparr>uv_thread_create := - 1\<rparr>"

definition failing_async_hooks :: "string Hooks" where
  "failing_async_hooks = sample_hooks\<lparr>uv_async_send := - 1\<rparr>"

definition add_command :: Message where
  "add_command = Command \<lparr>command_id = 1, action = COMMAND_ADD, arg = ''/srv''\<rparr>"

definition log_command :: Message where
  "log_command = Command \<lparr>command_id = 2, action = COMMAND_LOG_FILE, arg = ''w.log''\<rparr>"

definition odd_command :: Message where
  "odd_command = Command \<lparr>command_id = 3, action = COMMAND_OTHER 0, arg = []\<rparr>"

definition stray_ack :: Message where
  "stray_ack = Ack add_command True None"

definition fresh_thread :: "string Thread" where
  "fresh_thread = new_thread []"

text \<open>A thread whose spawn failed: the one way the model stores a health error.\<close>

definition unhealthy_thread :: "string Thread" where
  "unhealthy_thread = snd (run failing_spawn_hooks (new_thread []))"

text \<open>Threads in the other three states, and threads with a failed queue.\<close>

definition starting_thread :: "string Thread" where
  "starting_thread = snd (run sample_hooks (new_thread []))"

definition running_thread :: "string Thread" where
  "running_thread = worker_startup starting_thread"

definition stopping_thread :: "string Thread" where
  "stopping_thread =
     worker_begin_stop (snd (send_all sample_hooks running_thread [log_command]))"

definition failed_queue :: Queue where
  "failed_queue = \<lparr>items = [], q_error = Some ''queue failure''\<rparr>"

definition out_failed_thread :: "string Thread" where
  "out_failed_thread = (new_thread [])\<lparr>out_queue := failed_queue\<rparr>"

definition in_failed_starting_thread :: "string Thread" where
  "in_failed_starting_thread = starting_thread\<lparr>in_queue := failed_queue\<rparr>"




text \<open>
  Threads on which an operation has just reported an error: a failed wake trigger, and a
  refused enqueue.
\<close>

definition after_wake_failure :: "string Thread" where
  "after_wake_failure = snd (emit_all failing_async_hooks running_thread [stray_ack])"

definition after_refusal :: "string Thread" where
  "after_refusal = snd (send_all sample_hooks out_failed_thread [log_command])"

section \<open>Properties\<close>

declare send_all.simps [simp del]

lemmas thread_ops =
  is_healthy_def health_err_result_def record_effect_def ok_result_def error_result_def
  mark_stopped_def mark_starting_def mark_running_def mark_stopping_def
  is_starting_def is_running_def is_stopped_def is_stopping_def

lemmas queue_ops = enqueue_def enqueue_all_def dequeue_all_def

lemmas sample_defs =
  sample_hooks_def sample_offline_def add_command_def log_command_def stray_ack_def
  new_thread_def fresh_thread_def OFFLINE_ACK_def TRIGGER_RUN_def
  starting_thread_def running_thread_def worker_startup_def

subsection \<open>The loop of the STOPPED branch, and what each operation leaves alone\<close>

lemma stores_append: "stores (xs @ ys) = stores xs @ stores ys"
  by (induction xs rule: stores.induct) simp_all

lemma offline_loop_frame:
  "health (snd (offline_loop h ms t sr acks)) = health t
   \<and> state (snd (offline_loop h ms t sr acks)) = state t
   \<and> out_queue (snd (offline_loop h ms t sr acks)) = out_queue t
   \<and> dead_letter_office (snd (offline_loop h ms t sr acks)) = dead_letter_office t
   \<and> stores (trace (snd (offline_loop h ms t sr acks))) = stores (trace t)
   \<and> (\<exists>ext. trace (snd (offline_loop h ms t sr acks)) = trace t @ ext)"
proof (induction ms arbitrary: t sr acks)
  case Nil
  show ?case by simp
next
  case (Cons m ms)
  show ?case
  proof (cases "as_command m")
    case None
    then show ?thesis using Cons.IH [of t] by simp
  next
    case (Some c)
    obtain r0 st where hc: "handle_offline_command h c (starter t) = (r0, st)"
      by (cases "handle_offline_command h c (starter t)")
    let ?t0 = "t\<lparr>starter := st\<rparr>"
    show ?thesis
    proof (cases r0)
      case (Error e)
      then show ?thesis using Some hc Cons.IH [of ?t0] by simp
    next
      case (Ok v)
      consider "v = OFFLINE_ACK" | "v \<noteq> OFFLINE_ACK" "v = TRIGGER_RUN"
        | "v \<noteq> OFFLINE_ACK" "v \<noteq> TRIGGER_RUN" by blast
      then show ?thesis
      proof cases
        case 1
        then show ?thesis using Some hc Ok Cons.IH [of ?t0] by simp
      next
        case 2
        obtain r1 q where he: "enqueue (in_queue ?t0) m = (r1, q)"
          by (cases "enqueue (in_queue ?t0) m")
        let ?t1 = "record_effect (InEnqueue m) (?t0\<lparr>in_queue := q\<rparr>)"
        have t1: "health ?t1 = health t" "state ?t1 = state t" "out_queue ?t1 = out_queue t"
          "dead_letter_office ?t1 = dead_letter_office t"
          "stores (trace ?t1) = stores (trace t)" "trace ?t1 = trace t @ [InEnqueue m]"
          by (simp_all add: record_effect_def stores_append)
        show ?thesis
        proof (cases r1)
          case (Error e)
          then show ?thesis using Some hc Ok 2 he t1 by simp
        next
          case (Ok u)
          from Cons.IH [of ?t1 True acks] t1
          show ?thesis using Some hc \<open>r0 = Ok v\<close> 2 he Ok by auto
        qed
      next
        case 3
        then show ?thesis using Some hc Ok Cons.IH [of ?t0] by simp
      qed
    qed
  qed
qed

lemma offline_loop_acks_grow:
  "fst (offline_loop h ms t sr acks) = Ok (sr', acks') \<Longrightarrow> \<exists>ext. acks' = acks @ ext"
proof (induction ms arbitrary: t sr acks)
  case Nil
  then show ?case by simp
next
  case (Cons m ms)
  have step: "\<exists>ext. acks' = acks @ ext"
    if "fst (offline_loop h ms t1 sr1 (acks @ [a])) = Ok (sr', acks')" for t1 sr1 a
    using Cons.IH [OF that] by auto
  show ?case
  proof (cases "as_command m")
    case None
    with Cons.prems show ?thesis by (auto intro: step)
  next
    case (Some c)
    obtain r0 st where hc: "handle_offline_command h c (starter t) = (r0, st)"
      by (cases "handle_offline_command h c (starter t)")
    let ?t0 = "t\<lparr>starter := st\<rparr>"
    show ?thesis
    proof (cases r0)
      case (Error e)
      with Cons.prems Some hc show ?thesis by (auto intro: step)
    next
      case (Ok v)
      consider "v = OFFLINE_ACK" | "v \<noteq> OFFLINE_ACK" "v = TRIGGER_RUN"
        | "v \<noteq> OFFLINE_ACK" "v \<noteq> TRIGGER_RUN" by blast
      then show ?thesis
      proof cases
        case 1
        with Cons.prems Some hc Ok show ?thesis by (auto intro: step)
      next
        case 2
        obtain r1 q where he: "enqueue (in_queue ?t0) m = (r1, q)"
          by (cases "enqueue (in_queue ?t0) m")
        show ?thesis
        proof (cases r1)
          case (Error e)
          with Cons.prems Some hc \<open>r0 = Ok v\<close> 2 he show ?thesis by simp
        next
          case (Ok u)
          with Cons.prems Some hc \<open>r0 = Ok v\<close> 2 he
          have "fst (offline_loop h ms (record_effect (InEnqueue m) (?t0\<lparr>in_queue := q\<rparr>)) True acks)
                  = Ok (sr', acks')"
            by simp
          then show ?thesis by (rule Cons.IH)
        qed
      next
        case 3
        with Cons.prems Some hc Ok show ?thesis by (auto intro: step)
      qed
    qed
  qed
qed

lemma offline_loop_ok:
  "q_error (in_queue t) = None \<Longrightarrow>
   offline_loop h ms t sr acks =
     (Ok (sr \<or> offline_starts h (starter t) ms \<noteq> [], acks @ offline_acks h (starter t) ms),
      t\<lparr>starter := offline_starter h (starter t) ms,
        in_queue := (in_queue t)\<lparr>items := items (in_queue t) @ offline_starts h (starter t) ms\<rparr>,
        trace := trace t @ map InEnqueue (offline_starts h (starter t) ms)\<rparr>)"
proof (induction ms arbitrary: t sr acks)
  case Nil
  then show ?case by simp
next
  case (Cons m ms)
  show ?case
  proof (cases "as_command m")
    case None
    then show ?thesis using Cons.IH [OF Cons.prems] by (simp add: offline_verdict_def)
  next
    case (Some c)
    obtain r0 st where hc: "handle_offline_command h c (starter t) = (r0, st)"
      by (cases "handle_offline_command h c (starter t)")
    let ?t0 = "t\<lparr>starter := st\<rparr>"
    have q0: "q_error (in_queue ?t0) = None" using Cons.prems by simp
    let ?t1 = "record_effect (InEnqueue m) (?t0\<lparr>in_queue := (in_queue t)\<lparr>items := items (in_queue t) @ [m]\<rparr>\<rparr>)"
    have q1: "q_error (in_queue ?t1) = None" using Cons.prems by (simp add: record_effect_def)
    show ?thesis
    proof (cases r0)
      case (Error e)
      then show ?thesis using Some hc Cons.IH [OF q0] by (simp add: offline_verdict_def)
    next
      case (Ok v)
      then show ?thesis
        using Some hc Cons.IH [OF q0] Cons.IH [OF q1] Cons.prems
        by (simp add: offline_verdict_def enqueue_def record_effect_def)
    qed
  qed
qed

text \<open>
  The verdict \<open>Start\<close> is exactly the handler's answer TRIGGER_RUN on a command, and
  every message of a batch gets one verdict: an ack or a place on \<open>in\<close>.
\<close>

lemma offline_verdict_start:
  "fst (offline_verdict h st m) = Start \<longleftrightarrow>
     (\<exists>c. as_command m = Some c \<and> fst (handle_offline_command h c st) = Ok TRIGGER_RUN)"
  by (cases "as_command m")
     (auto simp: offline_verdict_def OFFLINE_ACK_def TRIGGER_RUN_def split: prod.splits Result.splits)

lemma offline_split:
  "length (offline_starts h st ms) + length (offline_acks h st ms) = length ms"
  by (induction ms arbitrary: st) (auto split: prod.splits Offline.splits)

lemma run_frame:
  "dead_letter_office (snd (run h t)) = dead_letter_office t
   \<and> (\<exists>ext. trace (snd (run h t)) = trace t @ ext)"
  by (simp add: run_def thread_ops Let_def)

lemma flush_frame:
  "dead_letter_office (record_effect (OutEnqueueAll acks) (t\<lparr>out_queue := q\<rparr>)) = dead_letter_office t
   \<and> state (record_effect (OutEnqueueAll acks) (t\<lparr>out_queue := q\<rparr>)) = state t
   \<and> stores (trace (record_effect (OutEnqueueAll acks) (t\<lparr>out_queue := q\<rparr>))) = stores (trace t)
   \<and> trace (record_effect (OutEnqueueAll acks) (t\<lparr>out_queue := q\<rparr>)) = trace t @ [OutEnqueueAll acks]"
  by (simp add: record_effect_def stores_append)

lemma send_all_stopped_frame:
  "dead_letter_office (snd (send_all_stopped h t msgs)) = dead_letter_office t
   \<and> (\<exists>ext. trace (snd (send_all_stopped h t msgs)) = trace t @ ext)"
proof -
  obtain r t1 where l: "offline_loop h msgs t False [] = (r, t1)"
    by (cases "offline_loop h msgs t False []")
  from offline_loop_frame [of h msgs t False "[]"] l
  obtain ext where f: "dead_letter_office t1 = dead_letter_office t" "trace t1 = trace t @ ext"
    by auto
  show ?thesis
  proof (cases r)
    case (Error e)
    with l f show ?thesis by (simp add: send_all_stopped_def)
  next
    case (Ok p)
    obtain sr acks where p: "p = (sr, acks)" by (cases p)
    obtain r2 q where e: "enqueue_all (out_queue t1) acks = (r2, q)"
      by (cases "enqueue_all (out_queue t1) acks")
    let ?t2 = "record_effect (OutEnqueueAll acks) (t1\<lparr>out_queue := q\<rparr>)"
    from run_frame [of h ?t2] run_frame [of h t1]
    show ?thesis
      using l f Ok p e flush_frame [where acks=acks and t=t1 and q=q]
      by (cases r2; cases "run h ?t2"; cases "run h t1")
         (auto simp: send_all_stopped_def ok_result_def)
  qed
qed

lemma send_all_online_frame:
  "dead_letter_office (snd (send_all_online h t msgs)) = dead_letter_office t
   \<and> state (snd (send_all_online h t msgs)) = state t
   \<and> stores (trace (snd (send_all_online h t msgs))) = stores (trace t)
   \<and> (\<exists>ext. trace (snd (send_all_online h t msgs)) = trace t @ ext)"
  by (cases "enqueue_all (in_queue t) msgs"; cases "fst (enqueue_all (in_queue t) msgs)")
     (auto simp: send_all_online_def thread_ops Let_def stores_append)

lemma send_all_admit_frame:
  "dead_letter_office (snd (send_all_admit h t msgs)) = dead_letter_office t
   \<and> (\<exists>ext. trace (snd (send_all_admit h t msgs)) = trace t @ ext)"
  using send_all_stopped_frame [of h t msgs] send_all_online_frame [of h t msgs]
  by (simp add: send_all_admit_def)

lemma uv_thread_join_eq:
  "uv_thread_join t = t\<lparr>state := STOPPED, trace := trace t @ [UvThreadJoin, StateStore STOPPED]\<rparr>"
  by (simp add: uv_thread_join_def thread_ops)

text \<open>
  \<open>send_all\<close> looks at the dead letter office only when it sees STOPPING: on a Thread
  that is already STOPPED the office is left as it was found.
\<close>

lemma stopped_send_all_keeps_office:
  assumes "is_healthy t" and "is_stopped t"
  shows "dead_letter_office (snd (send_all h t msgs)) = dead_letter_office t"
proof -
  have "send_all h t msgs = send_all_stopped h t msgs"
    using assms by (simp add: send_all.simps [of h t] send_all_admit_def thread_ops)
  then show ?thesis
    using send_all_stopped_frame [of h t msgs] by simp
qed

text \<open>
  The two signals of the STOPPED branch come apart: a batch can start the thread without
  an ack, produce an ack without starting the thread, or do neither.
\<close>

lemma stopped_signals_examples:
  "fst (send_all sample_hooks fresh_thread [add_command]) = Ok False
   \<and> state (snd (send_all sample_hooks fresh_thread [add_command])) = STARTING
   \<and> fst (send_all sample_hooks fresh_thread [log_command]) = Ok True
   \<and> state (snd (send_all sample_hooks fresh_thread [log_command])) = STOPPED
   \<and> fst (send_all sample_hooks fresh_thread []) = Ok False
   \<and> state (snd (send_all sample_hooks fresh_thread [])) = STOPPED"
  by (simp add: sample_defs send_all.simps send_all_admit_def send_all_stopped_def run_def
        queue_ops thread_ops)

subsection \<open>The stores each operation makes\<close>




























subsection \<open>The claims\<close>

text \<open>
  C1. A \<open>send_all\<close> on a healthy Thread that sees STOPPING joins the worker before
  anything else. If a dead letter buffer is present the call takes it, leaving the
  office absent, puts the new messages after the dead letters in the order given, and
  handles the combined batch as \<open>send_all\<close> does for a STOPPED Thread: by the STOPPED
  branch. (With no buffer the call's own batch goes through that branch.)
\<close>

theorem send_all_stopping_joins_and_replays:
  assumes "is_healthy t" and "is_stopping t"
  shows "uv_thread_join t =
           t\<lparr>state := STOPPED, trace := trace t @ [UvThreadJoin, StateStore STOPPED]\<rparr>
       \<and> (\<exists>rest. trace (snd (send_all h t msgs)) = trace t @ UvThreadJoin # rest)
       \<and> send_all h t msgs =
           (case dead_letter_office t of
              Some dead_letters \<Rightarrow>
                send_all_stopped h ((uv_thread_join t)\<lparr>dead_letter_office := None\<rparr>)
                  (dead_letters @ msgs)
            | None \<Rightarrow> send_all_stopped h (uv_thread_join t) msgs)
       \<and> is_stopped ((uv_thread_join t)\<lparr>dead_letter_office := None\<rparr>)
       \<and> send_all h ((uv_thread_join t)\<lparr>dead_letter_office := None\<rparr>) batch =
           send_all_stopped h ((uv_thread_join t)\<lparr>dead_letter_office := None\<rparr>) batch
       \<and> dead_letter_office (snd (send_all h t msgs)) = None"
proof -
  let ?t1 = "uv_thread_join t"
  let ?t2 = "?t1\<lparr>dead_letter_office := None\<rparr>"
  have j: "?t1 = t\<lparr>state := STOPPED, trace := trace t @ [UvThreadJoin, StateStore STOPPED]\<rparr>"
    by (rule uv_thread_join_eq)
  have t2: "is_healthy ?t2" "\<not> is_stopping ?t2" "is_stopped ?t2"
    "trace ?t2 = trace t @ [UvThreadJoin, StateStore STOPPED]" "dead_letter_office ?t2 = None"
    using assms by (simp_all add: j thread_ops)
  have t1: "is_stopped ?t1" "trace ?t1 = trace t @ [UvThreadJoin, StateStore STOPPED]"
    "dead_letter_office ?t1 = dead_letter_office t"
    by (simp_all add: j thread_ops)
  have replay: "send_all h ?t2 ms = send_all_stopped h ?t2 ms" for ms
    using t2 by (simp add: send_all.simps [of h ?t2] send_all_admit_def)
  have taken: "send_all h t msgs = send_all_stopped h ?t2 (dl @ msgs)"
    if "dead_letter_office t = Some dl" for dl
    using assms that t1 replay [of "dl @ msgs"] by (simp add: send_all.simps [of h t] Let_def)
  have absent: "send_all h t msgs = send_all_stopped h ?t1 msgs" if "dead_letter_office t = None"
    using assms that t1 by (simp add: send_all.simps [of h t] Let_def send_all_admit_def)
  have path: "send_all h t msgs =
           (case dead_letter_office t of
              Some dead_letters \<Rightarrow> send_all_stopped h ?t2 (dead_letters @ msgs)
            | None \<Rightarrow> send_all_stopped h ?t1 msgs)"
    using taken absent by (cases "dead_letter_office t") simp_all
  have both: "(\<exists>rest. trace (snd (send_all h t msgs)) = trace t @ UvThreadJoin # rest)
       \<and> dead_letter_office (snd (send_all h t msgs)) = None"
  proof (cases "dead_letter_office t")
    case None
    from send_all_stopped_frame [of h ?t1 msgs] obtain ext
      where "trace (snd (send_all_stopped h ?t1 msgs)) = trace ?t1 @ ext"
        and "dead_letter_office (snd (send_all_stopped h ?t1 msgs)) = dead_letter_office ?t1"
      by blast
    then show ?thesis
      using absent [OF None] None t1 by simp
  next
    case (Some dl)
    from send_all_stopped_frame [of h ?t2 "dl @ msgs"] obtain ext
      where "trace (snd (send_all_stopped h ?t2 (dl @ msgs))) = trace ?t2 @ ext"
        and "dead_letter_office (snd (send_all_stopped h ?t2 (dl @ msgs))) = dead_letter_office ?t2"
      by blast
    then show ?thesis
      using taken [OF Some] t2 by simp
  qed
  show ?thesis
    using j both path t2(3) replay [of batch] by blast
qed

theorem send_all_stopping_joins_and_replays_witness:
  "is_healthy stopping_thread \<and> is_stopping stopping_thread
   \<and> dead_letter_office stopping_thread = Some [log_command]
   \<and> send_all sample_hooks stopping_thread [add_command] =
       send_all_stopped sample_hooks
         ((uv_thread_join stopping_thread)\<lparr>dead_letter_office := None\<rparr>)
         ([log_command] @ [add_command])
   \<and> is_stopped ((uv_thread_join stopping_thread)\<lparr>dead_letter_office := None\<rparr>)
   \<and> dead_letter_office (snd (send_all sample_hooks stopping_thread [add_command])) = None"
proof -
  have r: "running_thread =
      \<lparr>health = None, state = RUNNING, starter = [],
       in_queue = \<lparr>items = [], q_error = None\<rparr>, out_queue = \<lparr>items = [], q_error = None\<rparr>,
       dead_letter_office = None,
       trace = [StateStore STARTING, UvThreadCreate, StateStore RUNNING]\<rparr>"
    by (simp add: sample_defs run_def thread_ops)
  have s: "stopping_thread =
      \<lparr>health = None, state = STOPPING, starter = [],
       in_queue = \<lparr>items = [], q_error = None\<rparr>, out_queue = \<lparr>items = [], q_error = None\<rparr>,
       dead_letter_office = Some [log_command],
       trace = [StateStore STARTING, UvThreadCreate, StateStore RUNNING,
                InEnqueueAll [log_command], WakeCall, StateStore STOPPING]\<rparr>"
    unfolding stopping_thread_def r
    by (simp add: send_all.simps send_all_admit_def send_all_online_def worker_begin_stop_def
          sample_hooks_def queue_ops thread_ops)
  have h: "is_healthy stopping_thread" and p: "is_stopping stopping_thread"
    and d: "dead_letter_office stopping_thread = Some [log_command]"
    by (simp_all add: s thread_ops)
  have "send_all sample_hooks stopping_thread [add_command] =
          (case dead_letter_office stopping_thread of
             Some dead_letters \<Rightarrow>
               send_all_stopped sample_hooks
                 ((uv_thread_join stopping_thread)\<lparr>dead_letter_office := None\<rparr>)
                 (dead_letters @ [add_command])
           | None \<Rightarrow> send_all_stopped sample_hooks (uv_thread_join stopping_thread) [add_command])"
    and "is_stopped ((uv_thread_join stopping_thread)\<lparr>dead_letter_office := None\<rparr>)"
    and "dead_letter_office (snd (send_all sample_hooks stopping_thread [add_command])) = None"
    using send_all_stopping_joins_and_replays [OF h p, of sample_hooks "[add_command]"]
    by blast+
  then show ?thesis
    using h p d by simp
qed

text \<open>
  C2, as amended. While a health error is stored in the instance, every public operation
  (run, send, send_all, receive_all, drain, emit, emit_all) returns that stored error at
  once and leaves the whole Thread as it was: queues, state, starter, dead letters and
  the log of calls made (so no join and no wake trigger either).
\<close>

theorem unhealthy_short_circuit:
  assumes "health t = Some e"
  shows "run h t = (Error e, t)
       \<and> send h t m = (Error e, t)
       \<and> send_all h t msgs = (Error e, t)
       \<and> receive_all t = (Error e, t)
       \<and> drain h t = (Error e, t)
       \<and> emit h t m = (Error e, t)
       \<and> emit_all h t msgs = (Error e, t)"
  using assms
  by (simp add: run_def send_def receive_all_def drain_def emit_def emit_all_def
        send_all.simps is_healthy_def health_err_result_def)

theorem unhealthy_short_circuit_witness:
  "health unhealthy_thread = Some ''uv failure''
   \<and> run sample_hooks unhealthy_thread = (Error ''uv failure'', unhealthy_thread)
   \<and> send sample_hooks unhealthy_thread add_command = (Error ''uv failure'', unhealthy_thread)
   \<and> send_all sample_hooks unhealthy_thread [add_command] = (Error ''uv failure'', unhealthy_thread)
   \<and> receive_all unhealthy_thread = (Error ''uv failure'', unhealthy_thread)
   \<and> drain sample_hooks unhealthy_thread = (Error ''uv failure'', unhealthy_thread)
   \<and> emit sample_hooks unhealthy_thread add_command = (Error ''uv failure'', unhealthy_thread)
   \<and> emit_all sample_hooks unhealthy_thread [add_command] = (Error ''uv failure'', unhealthy_thread)"
proof -
  have h: "health unhealthy_thread = Some ''uv failure''"
    by (simp add: sample_defs unhealthy_thread_def failing_spawn_hooks_def run_def thread_ops)
  show ?thesis
    using h unhealthy_short_circuit [OF h, of sample_hooks add_command "[add_command]"]
    by simp
qed

text \<open>
  C2 as stated fails: an error that an operation reports is not thereby stored. After
  \<open>emit_all\<close> has reported a failed wake trigger, the next \<open>send_all\<close> enqueues and
  returns false; after \<open>send_all\<close> has reported a refused enqueue (the handler having
  already rewritten the starter), the next \<open>send_all\<close> starts the thread.
\<close>

theorem reported_error_not_stored_counterexample:
  "fst (emit_all failing_async_hooks running_thread [stray_ack]) = Error ''uv failure''
   \<and> fst (send_all sample_hooks after_wake_failure [add_command]) = Ok False
   \<and> items (in_queue (snd (send_all sample_hooks after_wake_failure [add_command]))) = [add_command]
   \<and> fst (send_all sample_hooks out_failed_thread [log_command]) = Error ''queue failure''
   \<and> starter after_refusal = ''w.log''
   \<and> fst (send_all sample_hooks after_refusal [add_command]) = Ok False
   \<and> state (snd (send_all sample_hooks after_refusal [add_command])) = STARTING"
  by (simp add: sample_defs after_wake_failure_def after_refusal_def failing_async_hooks_def
        out_failed_thread_def failed_queue_def emit_all_def send_all.simps send_all_admit_def
        send_all_online_def send_all_stopped_def run_def queue_ops thread_ops)

text \<open>
  C3, as amended. When a healthy STOPPED Thread whose two queues accept what they are
  given handles a batch: \<open>run\<close> is called (STARTING is stored and the worker spawned)
  exactly when some message's offline handling answered TRIGGER_RUN, after every such
  message has been put on \<open>in\<close> and after the acks have been put on \<open>out\<close>; and unless
  \<open>run\<close> fails the call returns true exactly when it produced an ack. Neither signal
  depends on the other.
\<close>

theorem send_all_stopped_signals:
  assumes "is_healthy t" and "is_stopped t"
    and "q_error (in_queue t) = None" and "q_error (out_queue t) = None"
  shows "trace (snd (send_all h t msgs)) =
           trace t @ map InEnqueue (offline_starts h (starter t) msgs)
             @ (if offline_acks h (starter t) msgs = [] then []
                else [OutEnqueueAll (offline_acks h (starter t) msgs)])
             @ (if offline_starts h (starter t) msgs = [] then []
                else [StateStore STARTING, UvThreadCreate])
       \<and> items (in_queue (snd (send_all h t msgs))) =
           items (in_queue t) @ offline_starts h (starter t) msgs
       \<and> items (out_queue (snd (send_all h t msgs))) =
           items (out_queue t) @ offline_acks h (starter t) msgs
       \<and> state (snd (send_all h t msgs)) =
           (if offline_starts h (starter t) msgs = [] then STOPPED else STARTING)
       \<and> fst (send_all h t msgs) =
           (if offline_starts h (starter t) msgs \<noteq> [] \<and> uv_thread_create h \<noteq> 0
            then Error (uv_strerror h (uv_thread_create h))
            else Ok (offline_acks h (starter t) msgs \<noteq> []))"
proof -
  have "send_all h t msgs = send_all_stopped h t msgs"
    using assms(1,2) by (simp add: send_all.simps [of h t] send_all_admit_def thread_ops)
  then show ?thesis
    using assms
    by (simp add: send_all_stopped_def offline_loop_ok run_def enqueue_all_def thread_ops Let_def)
qed

theorem send_all_stopped_signals_witness:
  "is_healthy (fresh_thread) \<and> is_stopped (fresh_thread)
   \<and> q_error (in_queue (fresh_thread)) = None \<and> q_error (out_queue (fresh_thread)) = None
   \<and> trace (snd (send_all sample_hooks (fresh_thread) [log_command, add_command])) =
       [InEnqueue add_command, OutEnqueueAll [Ack log_command True None],
        StateStore STARTING, UvThreadCreate]
   \<and> items (in_queue (snd (send_all sample_hooks (fresh_thread) [log_command, add_command]))) =
       [add_command]
   \<and> items (out_queue (snd (send_all sample_hooks (fresh_thread) [log_command, add_command]))) =
       [Ack log_command True None]
   \<and> state (snd (send_all sample_hooks (fresh_thread) [log_command, add_command])) = STARTING
   \<and> fst (send_all sample_hooks (fresh_thread) [log_command, add_command]) = Ok True"
proof -
  have h: "is_healthy (fresh_thread)" and s: "is_stopped (fresh_thread)"
    and i: "q_error (in_queue (fresh_thread)) = None"
    and out: "q_error (out_queue (fresh_thread)) = None"
    by (simp_all add: fresh_thread_def new_thread_def thread_ops)
  have a: "offline_acks sample_hooks (starter (fresh_thread)) [log_command, add_command] =
             [Ack log_command True None]"
    and b: "offline_starts sample_hooks (starter (fresh_thread)) [log_command, add_command] =
             [add_command]"
    by (simp_all add: sample_defs offline_verdict_def)
  have c: "uv_thread_create sample_hooks = 0" "trace (fresh_thread) = []"
    "items (in_queue (fresh_thread)) = []" "items (out_queue (fresh_thread)) = []"
    by (simp_all add: sample_defs)
  show ?thesis
    using h s i out a b c
      send_all_stopped_signals [OF h s i out, of sample_hooks "[log_command, add_command]"]
    by simp
qed

text \<open>
  C3 as stated fails: with a healthy STOPPED Thread whose \<open>out\<close> queue has failed, a
  batch of a stray ack and an Add has the Add answered TRIGGER_RUN and put on \<open>in\<close>,
  yet the refused ack batch ends the call before \<open>run\<close>: the Thread stays STOPPED.
\<close>

theorem send_all_stopped_run_counterexample:
  "is_healthy out_failed_thread \<and> is_stopped out_failed_thread
   \<and> offline_starts sample_hooks (starter out_failed_thread) [stray_ack, add_command] = [add_command]
   \<and> fst (send_all sample_hooks out_failed_thread [stray_ack, add_command]) = Error ''queue failure''
   \<and> state (snd (send_all sample_hooks out_failed_thread [stray_ack, add_command])) = STOPPED
   \<and> items (in_queue (snd (send_all sample_hooks out_failed_thread [stray_ack, add_command]))) =
       [add_command]
   \<and> trace (snd (send_all sample_hooks out_failed_thread [stray_ack, add_command])) =
       [InEnqueue add_command,
        OutEnqueueAll [Ack stray_ack False (Some ''Non-command message [ack] sent'')]]"
  by (simp add: sample_defs out_failed_thread_def failed_queue_def offline_verdict_def send_all.simps send_all_admit_def
        send_all_stopped_def queue_ops thread_ops ack_def)




text \<open>
  C6, as amended. When the wake trigger fails, \<open>emit_all\<close> returns an error carrying
  libuv's text for the code, after the batch has been put on \<open>out\<close>. Nothing is stored:
  the Thread is as healthy as before, its state is untouched, and a later \<open>emit_all\<close>
  whose trigger succeeds returns success.
\<close>

theorem emit_all_wake_failure_not_stored:
  assumes "is_healthy t" and "q_error (out_queue t) = None" and "uv_async_send h \<noteq> 0"
  shows "fst (emit_all h t msgs) = Error (uv_strerror h (uv_async_send h))
       \<and> is_healthy (snd (emit_all h t msgs))
       \<and> items (out_queue (snd (emit_all h t msgs))) = items (out_queue t) @ msgs
       \<and> state (snd (emit_all h t msgs)) = state t
       \<and> (uv_async_send h' = 0 \<longrightarrow>
             fst (emit_all h' (snd (emit_all h t msgs)) msgs') = Ok ())"
  using assms
  by (auto simp: emit_all_def enqueue_all_def thread_ops Let_def split: option.splits)

theorem emit_all_wake_failure_not_stored_witness:
  "is_healthy running_thread
   \<and> q_error (out_queue running_thread) = None
   \<and> uv_async_send failing_async_hooks \<noteq> 0
   \<and> uv_async_send sample_hooks = 0
   \<and> fst (emit_all failing_async_hooks running_thread [stray_ack]) = Error ''uv failure''
   \<and> is_healthy (snd (emit_all failing_async_hooks running_thread [stray_ack]))
   \<and> state (snd (emit_all failing_async_hooks running_thread [stray_ack])) = RUNNING
   \<and> fst (emit_all sample_hooks
             (snd (emit_all failing_async_hooks running_thread [stray_ack])) [log_command]) = Ok ()"
proof -
  have h: "is_healthy running_thread"
    by (simp add: sample_defs failing_async_hooks_def run_def thread_ops)
  have q: "q_error (out_queue running_thread) = None"
    by (simp add: sample_defs failing_async_hooks_def run_def thread_ops)
  have u: "uv_async_send failing_async_hooks \<noteq> 0"
    by (simp add: sample_defs failing_async_hooks_def)
  have u': "uv_async_send sample_hooks = 0"
    by (simp add: sample_defs failing_async_hooks_def)
  have s: "state running_thread = RUNNING"
    by (simp add: sample_defs failing_async_hooks_def run_def thread_ops)
  have e: "uv_strerror failing_async_hooks (uv_async_send failing_async_hooks) = ''uv failure''"
    by (simp add: sample_defs failing_async_hooks_def)
  show ?thesis
    using h q u u' s e
      emit_all_wake_failure_not_stored [OF h q u, of "[stray_ack]" sample_hooks "[log_command]"]
    by simp
qed

text \<open>
  C6 as stated fails: after a failed wake trigger the Thread is still healthy, and the
  next public call does its normal work instead of returning that error.
\<close>

theorem emit_all_wake_failure_counterexample:
  "is_healthy running_thread
   \<and> fst (emit_all failing_async_hooks running_thread [stray_ack]) = Error ''uv failure''
   \<and> health (snd (emit_all failing_async_hooks running_thread [stray_ack])) = None
   \<and> fst (emit_all sample_hooks
             (snd (emit_all failing_async_hooks running_thread [stray_ack])) [stray_ack]) = Ok ()
   \<and> fst (receive_all (snd (emit_all failing_async_hooks running_thread [stray_ack]))) =
        Ok (Some [stray_ack])"
  by (simp add: sample_defs failing_async_hooks_def emit_all_def receive_all_def run_def queue_ops thread_ops)

text \<open>
  C7, as amended. On a healthy Thread \<open>emit_all\<close> calls \<open>enqueue_all\<close> on \<open>out\<close>
  exactly once with the whole batch, whatever its length; when the queue accepts the
  batch exactly one wake trigger follows, and when the queue refuses it there is none.
\<close>

theorem emit_all_one_enqueue_one_trigger:
  assumes "is_healthy t"
  shows "trace (snd (emit_all h t msgs)) =
           trace t @ (if q_error (out_queue t) = None
                      then [OutEnqueueAll msgs, UvAsyncSend] else [OutEnqueueAll msgs])
       \<and> items (out_queue (snd (emit_all h t msgs))) =
           (if q_error (out_queue t) = None then items (out_queue t) @ msgs
            else items (out_queue t))"
  using assms
  by (auto simp: emit_all_def enqueue_all_def record_effect_def Let_def split: option.splits)

theorem emit_all_one_enqueue_one_trigger_witness:
  "is_healthy running_thread
   \<and> trace (snd (emit_all sample_hooks running_thread [stray_ack, stray_ack])) =
        trace running_thread @ [OutEnqueueAll [stray_ack, stray_ack], UvAsyncSend]
   \<and> items (out_queue (snd (emit_all sample_hooks running_thread [stray_ack, stray_ack]))) =
        [stray_ack, stray_ack]"
proof -
  have h: "is_healthy running_thread"
    by (simp add: sample_defs run_def thread_ops)
  have q: "q_error (out_queue running_thread) = None" "items (out_queue running_thread) = []"
    by (simp_all add: sample_defs run_def thread_ops)
  show ?thesis
    using h q emit_all_one_enqueue_one_trigger [OF h, of sample_hooks "[stray_ack, stray_ack]"]
    by simp
qed

text \<open>
  C7 as stated fails: with a healthy Thread whose \<open>out\<close> queue has failed, the one call of
  \<open>enqueue_all\<close> is refused and \<open>emit_all\<close> returns before any wake trigger.
\<close>

theorem emit_all_no_trigger_counterexample:
  "is_healthy out_failed_thread
   \<and> trace out_failed_thread = []
   \<and> trace (snd (emit_all sample_hooks out_failed_thread [stray_ack])) = [OutEnqueueAll [stray_ack]]
   \<and> fst (emit_all sample_hooks out_failed_thread [stray_ack]) = Error ''queue failure''"
  by (simp add: sample_defs out_failed_thread_def failed_queue_def emit_all_def queue_ops thread_ops)

text \<open>
  C8. In the loop of the STOPPED branch, a command whose offline handler returns a value
  that is neither OFFLINE_ACK nor TRIGGER_RUN gets a failure ack whose text names the
  message and the handler's output; the ack is appended to the buffered acks and stays
  there, the loop goes on with the rest of the batch, and the stored health is as it was.
\<close>

theorem invalid_offline_outcome_acked:
  assumes "as_command m = Some c"
    and "handle_offline_command h c (starter t) = (Ok v, st)"
    and "v \<noteq> OFFLINE_ACK" and "v \<noteq> TRIGGER_RUN"
  shows "offline_loop h (m # ms) t sr acks =
           offline_loop h ms (t\<lparr>starter := st\<rparr>) sr
             (acks @ [Ack m False (Some (''Message '' @ show_message h m
                        @ '' returned invalid offline outcome '' @ show_outcome h (Ok v)))])
       \<and> health (snd (offline_loop h (m # ms) t sr acks)) = health t
       \<and> (\<forall>sr' acks'. fst (offline_loop h (m # ms) t sr acks) = Ok (sr', acks') \<longrightarrow>
            (\<exists>rest. acks' = acks @ Ack m False (Some (''Message '' @ show_message h m
                        @ '' returned invalid offline outcome '' @ show_outcome h (Ok v))) # rest))"
proof -
  let ?a = "Ack m False (Some (''Message '' @ show_message h m
                        @ '' returned invalid offline outcome '' @ show_outcome h (Ok v)))"
  have step: "offline_loop h (m # ms) t sr acks =
           offline_loop h ms (t\<lparr>starter := st\<rparr>) sr (acks @ [?a])"
    using assms by (simp add: ack_def)
  have grow: "\<exists>rest. acks' = acks @ ?a # rest"
    if "fst (offline_loop h (m # ms) t sr acks) = Ok (sr', acks')" for sr' acks'
    using offline_loop_acks_grow [of h ms "t\<lparr>starter := st\<rparr>" sr "acks @ [?a]" sr' acks'] that step
    by auto
  show ?thesis
    using step grow offline_loop_frame [of h "m # ms" t sr acks] by blast
qed

theorem invalid_offline_outcome_acked_witness:
  "as_command odd_command = Some \<lparr>command_id = 3, action = COMMAND_OTHER 0, arg = []\<rparr>
   \<and> handle_offline_command sample_hooks \<lparr>command_id = 3, action = COMMAND_OTHER 0, arg = []\<rparr>
        (starter (new_thread [])) = (Ok 2, [])
   \<and> (2::int) \<noteq> OFFLINE_ACK \<and> (2::int) \<noteq> TRIGGER_RUN
   \<and> offline_loop sample_hooks [odd_command, log_command] (new_thread []) False [] =
       (Ok (False,
            [Ack odd_command False (Some ''Message [command] returned invalid offline outcome 2''),
             Ack log_command True None]),
        (new_thread [])\<lparr>starter := ''w.log''\<rparr>)
   \<and> health (snd (offline_loop sample_hooks [odd_command, log_command] (new_thread []) False [])) = None"
proof -
  have a: "as_command odd_command = Some \<lparr>command_id = 3, action = COMMAND_OTHER 0, arg = []\<rparr>"
    by (simp add: sample_defs odd_command_def)
  have b: "handle_offline_command sample_hooks \<lparr>command_id = 3, action = COMMAND_OTHER 0, arg = []\<rparr>
        (starter (new_thread [])) = (Ok 2, [])"
    by (simp add: sample_defs odd_command_def)
  have c: "(2::int) \<noteq> OFFLINE_ACK" and d: "(2::int) \<noteq> TRIGGER_RUN"
    by (simp_all add: sample_defs odd_command_def)
  have e: "offline_loop sample_hooks [log_command] ((new_thread [])\<lparr>starter := []\<rparr>) False
             [Ack odd_command False (Some (''Message '' @ show_message sample_hooks odd_command
                        @ '' returned invalid offline outcome '' @ show_outcome sample_hooks (Ok 2)))]
           = (Ok (False,
            [Ack odd_command False (Some ''Message [command] returned invalid offline outcome 2''),
             Ack log_command True None]),
        (new_thread [])\<lparr>starter := ''w.log''\<rparr>)"
    by (simp add: sample_defs odd_command_def)
  have f: "health (new_thread ([]::string)) = None"
    by (simp add: sample_defs odd_command_def)
  show ?thesis
    using a b c d e f
      invalid_offline_outcome_acked [OF a b c d, of "[log_command]" False "[]"]
    by simp
qed

text \<open>
  C9. On a healthy Thread \<open>receive_all\<close> hands over the whole of \<open>out\<close> and leaves it
  empty; when nothing was waiting the result is absent, and it is never a present empty
  batch.
\<close>

theorem receive_all_takes_everything:
  assumes "is_healthy t"
  shows "fst (receive_all t) =
           Ok (if items (out_queue t) = [] then None else Some (items (out_queue t)))
       \<and> items (out_queue (snd (receive_all t))) = []
       \<and> fst (receive_all t) \<noteq> Ok (Some [])"
  using assms by (simp add: receive_all_def dequeue_all_def record_effect_def)

theorem receive_all_takes_everything_witness:
  "is_healthy (snd (emit_all sample_hooks running_thread [stray_ack]))
   \<and> fst (receive_all (snd (emit_all sample_hooks running_thread [stray_ack]))) = Ok (Some [stray_ack])
   \<and> items (out_queue (snd (receive_all (snd (emit_all sample_hooks running_thread [stray_ack]))))) = []"
proof -
  have h: "is_healthy (snd (emit_all sample_hooks running_thread [stray_ack]))"
    by (simp add: sample_defs emit_all_def run_def queue_ops thread_ops)
  have out: "items (out_queue (snd (emit_all sample_hooks running_thread [stray_ack]))) = [stray_ack]"
    by (simp add: sample_defs emit_all_def run_def queue_ops thread_ops)
  show ?thesis
    using h out receive_all_takes_everything [OF h] by simp
qed

text \<open>
  C10, as amended. On a healthy Thread that is STARTING, \<open>send_all\<close> makes one
  \<open>enqueue_all\<close> call on \<open>in\<close> and no wake call. When the queue accepts the batch it is
  appended to \<open>in\<close> in the order given and the call returns false; when the queue
  refuses it the call returns the queue's error and \<open>in\<close> is as before.
\<close>

theorem send_all_starting:
  assumes "is_healthy t" and "is_starting t"
  shows "send_all h t msgs =
           (case q_error (in_queue t) of
              None \<Rightarrow>
                (Ok False,
                 t\<lparr>in_queue := (in_queue t)\<lparr>items := items (in_queue t) @ msgs\<rparr>,
                   trace := trace t @ [InEnqueueAll msgs]\<rparr>)
            | Some e \<Rightarrow> (Error e, t\<lparr>trace := trace t @ [InEnqueueAll msgs]\<rparr>))"
  using assms
  by (auto simp: send_all.simps send_all_admit_def send_all_online_def enqueue_all_def
        thread_ops Let_def split: option.splits)

theorem send_all_starting_witness:
  "is_healthy starting_thread \<and> is_starting starting_thread
   \<and> fst (send_all sample_hooks starting_thread [add_command, log_command]) = Ok False
   \<and> items (in_queue (snd (send_all sample_hooks starting_thread [add_command, log_command]))) =
        [add_command, log_command]
   \<and> trace (snd (send_all sample_hooks starting_thread [add_command, log_command])) =
        trace starting_thread @ [InEnqueueAll [add_command, log_command]]"
proof -
  have h: "is_healthy starting_thread"
    by (simp add: sample_defs run_def thread_ops)
  have s: "is_starting starting_thread"
    by (simp add: sample_defs run_def thread_ops)
  have q: "q_error (in_queue starting_thread) = None" "items (in_queue starting_thread) = []"
    by (simp_all add: sample_defs run_def thread_ops)
  show ?thesis
    using h s q send_all_starting [OF h s, of sample_hooks "[add_command, log_command]"]
    by simp
qed

text \<open>
  C10 as stated fails: with a healthy STARTING Thread whose \<open>in\<close> queue has failed, the
  call returns the queue's error, not false, and nothing is enqueued.
\<close>

theorem send_all_starting_counterexample:
  "is_healthy in_failed_starting_thread
   \<and> is_starting in_failed_starting_thread
   \<and> fst (send_all sample_hooks in_failed_starting_thread [add_command]) = Error ''queue failure''
   \<and> items (in_queue (snd (send_all sample_hooks in_failed_starting_thread [add_command]))) = []"
  by (simp add: sample_defs in_failed_starting_thread_def failed_queue_def send_all.simps send_all_admit_def send_all_online_def run_def
        queue_ops thread_ops)

end
